theory Spec2Isabelle
  imports Main "HOL-Library.AList"
begin

section \<open>The log forwarding plugin (src/index.js)\<close>

text \<open>
  The plugin reads a forwarding configuration from the host service, and adds to the
  host's CloudFormation resources one \<open>AWS::Lambda::Permission\<close> and one
  \<open>AWS::Logs::SubscriptionFilter\<close> per function of the service. The model follows
  \<open>src/index.js\<close> function by function: \<open>conf\<close>, \<open>updateResources\<close>,
  \<open>createResourcesObj\<close> and \<open>makeSubscriptionFilter\<close>.
\<close>

subsection \<open>JavaScript values\<close>

text \<open>
  The optional string fields of the configuration are JavaScript values: the property is
  missing (\<open>undefined\<close>), \<open>null\<close>, or a string. The source tests them in two
  ways: \<open>v == null\<close> (true of \<open>undefined\<close> and \<open>null\<close> only) and truthiness
  (\<open>if (v)\<close>, \<open>v || w\<close>), under which the empty string is false as well.
\<close>

datatype jsval = Undefined | Null | Str string

fun truthy :: "jsval \<Rightarrow> bool" where
  "truthy Undefined = False"
| "truthy Null = False"
| "truthy (Str s) = (s \<noteq> [])"

text \<open>\<open>v == null\<close>\<close>

fun eq_null :: "jsval \<Rightarrow> bool" where
  "eq_null Undefined = True"
| "eq_null Null = True"
| "eq_null (Str s) = False"

text \<open>\<open>a || b\<close>\<close>

definition js_or :: "jsval \<Rightarrow> jsval \<Rightarrow> jsval" where
  "js_or a b = (if truthy a then a else b)"

text \<open>The string a value converts to when it is passed where a string is expected.\<close>

fun to_string :: "jsval \<Rightarrow> string" where
  "to_string Undefined = ''undefined''"
| "to_string Null = ''null''"
| "to_string (Str s) = s"

text \<open>
  An object is the list of its properties in insertion order. The assignment
  \<open>obj[k] = v\<close> is \<^const>\<open>AList.update\<close>: it replaces the value of a property that exists
  and appends a new one otherwise. \<open>_.extend(dest, src)\<close> of underscore assigns every
  property of \<open>src\<close> to \<open>dest\<close>, in order. (JavaScript enumerates integer-like keys
  first; the keys the plugin produces all start with a letter, and nothing below depends
  on the order of the host's own keys.)
\<close>

type_synonym 'v obj = "(string \<times> 'v) list"

definition keys :: "'v obj \<Rightarrow> string list" where
  "keys ob = map fst ob"

definition extend_obj :: "'v obj \<Rightarrow> 'v obj \<Rightarrow> 'v obj" where
  "extend_obj dest src = foldl (\<lambda>d (k, v). AList.update k v d) dest src"

subsection \<open>The host: configuration, catalog, naming, resources\<close>

record log_forwarding_conf =
  destinationARN :: jsval
  destinationFn :: jsval
  filterPattern :: jsval
  stages :: "string list option"

record custom_conf =
  logForwarding :: "log_forwarding_conf option"

record provider_conf =
  stage :: string
  region :: string

record function_object =
  name :: string

text \<open>A CloudFormation resource; \<open>DependsOn\<close> is \<open>None\<close> when the property is not set.\<close>

record resource =
  Type :: string
  Properties :: "jsval obj"
  DependsOn :: "string list option"

text \<open>\<open>service.resources\<close>; \<open>Resources\<close> is \<open>None\<close> when it is \<open>undefined\<close>.\<close>

record service_resources =
  Resources :: "resource obj option"

text \<open>
  \<open>serverless.service\<close>: \<open>custom\<close> is \<open>service.service.custom\<close>, and
  \<open>resources\<close> is \<open>None\<close> when \<open>service.resources\<close> is \<open>undefined\<close>.
  The objects \<open>service.service\<close>, \<open>service.provider\<close> and \<open>options\<close> are taken
  to exist, as the framework always supplies them; \<open>custom\<close> and
  \<open>custom.logForwarding\<close> may be \<open>undefined\<close>.
\<close>

record service_obj =
  custom :: "custom_conf option"
  provider :: provider_conf
  service_functions :: "function_object obj"
  resources :: "service_resources option"

text \<open>
  The naming collaborator \<open>provider.naming\<close> of the host framework: four pure functions
  that the plugin calls and does not define.
\<close>

record naming_obj =
  getLambdaLogicalId :: "string \<Rightarrow> string"
  getLogGroupName :: "string \<Rightarrow> string"
  getNormalizedFunctionName :: "string \<Rightarrow> string"
  getLogGroupLogicalId :: "string \<Rightarrow> string"

text \<open>
  The plugin instance: the host service, \<open>options.stage\<close>, the naming collaborator and
  the messages written with \<open>serverless.cli.log\<close>, oldest first.
\<close>

record plugin =
  service :: service_obj
  options_stage :: jsval
  naming :: naming_obj
  cli_log :: "string list"

text \<open>
  What a call throws: a \<open>TypeError\<close> for reading the named property of \<open>undefined\<close>,
  or an \<open>Error\<close> with its message.
\<close>

datatype error = TypeError string | Error string

subsection \<open>The plugin\<close>

text \<open>\<open>get conf()\<close>: \<open>this.serverless.service.service.custom.logForwarding\<close>\<close>

definition conf :: "plugin \<Rightarrow> error + log_forwarding_conf option" where
  "conf p =
     (case custom (service p) of
        None \<Rightarrow> Inl (TypeError ''logForwarding'')
      | Some cu \<Rightarrow> Inr (logForwarding cu))"

text \<open>
  \<open>service.getFunction(functionName)\<close> of the host framework: the catalog entry of that
  name, and an error when there is none.
\<close>

definition getFunction :: "plugin \<Rightarrow> string \<Rightarrow> error + function_object" where
  "getFunction p functionName =
     (case map_of (service_functions (service p)) functionName of
        None \<Rightarrow> Inl (Error (''Function \"'' @ functionName @ ''\" doesn't exist in this Service''))
      | Some functionObject \<Rightarrow> Inr functionObject)"

definition makeSubscriptionFilter ::
  "plugin \<Rightarrow> jsval \<Rightarrow> string \<Rightarrow> jsval \<Rightarrow> error + resource obj" where
  "makeSubscriptionFilter p arn functionName pattern =
     (case getFunction p functionName of
        Inl e \<Rightarrow> Inl e
      | Inr functionObject \<Rightarrow>
          let logGroupName = getLogGroupName (naming p) (name functionObject);
              filterLogicalId =
                ''SubscriptionFilter'' @ getNormalizedFunctionName (naming p) functionName;
              functionLogGroupId = getLogGroupLogicalId (naming p) functionName
          in Inr [(filterLogicalId,
                   \<lparr> Type = ''AWS::Logs::SubscriptionFilter'',
                     Properties =
                       [(''DestinationArn'', arn),
                        (''FilterPattern'', pattern),
                        (''LogGroupName'', Str logGroupName)],
                     DependsOn = Some [''LogForwardingLambdaPermission'', functionLogGroupId] \<rparr>)])"

text \<open>The loop of \<open>createResourcesObj\<close> over the functions to subscribe.\<close>

fun subscribe :: "plugin \<Rightarrow> jsval \<Rightarrow> jsval \<Rightarrow> string list \<Rightarrow> resource obj
    \<Rightarrow> error + resource obj" where
  "subscribe p arn pattern [] resourceObj = Inr resourceObj"
| "subscribe p arn pattern (f # fs) resourceObj =
     (case makeSubscriptionFilter p arn f pattern of
        Inl e \<Rightarrow> Inl e
      | Inr subscriptionFilter \<Rightarrow>
          subscribe p arn pattern fs (extend_obj resourceObj subscriptionFilter))"

definition config_error :: string where
  "config_error =
     ''Serverless-log-forwarding is not configured correctly. Please see README for proper setup.''"

definition createResourcesObj :: "plugin \<Rightarrow> error + resource obj" where
  "createResourcesObj p =
     (case conf p of
        Inl e \<Rightarrow> Inl e
      | Inr None \<Rightarrow> Inl (TypeError ''destinationARN'')
      | Inr (Some c) \<Rightarrow>
          if eq_null (destinationARN c) \<and> eq_null (destinationFn c)
          then Inl (Error config_error)
          else
            let pattern = js_or (filterPattern c) (Str '''');
                arn = destinationARN c;
                destinationFnName = destinationFn c;
                fns = keys (service_functions (service p));
                fns = (if truthy destinationFnName
                       then filter (\<lambda>nm. Str nm \<noteq> destinationFnName) fns
                       else fns);
                principal = ''logs.'' @ region (provider (service p)) @ ''.amazonaws.com'';
                perm = \<lparr> Type = ''AWS::Lambda::Permission'',
                         Properties =
                           [(''FunctionName'', js_or arn destinationFnName),
                            (''Action'', Str ''lambda:InvokeFunction''),
                            (''Principal'', Str principal)],
                         DependsOn = None \<rparr>;
                resourceObj = [(''LogForwardingLambdaPermission'', perm)];
                resourceObj =
                  (if truthy destinationFnName
                   then AList.update ''LogForwardingLambdaPermission''
                          (perm\<lparr>DependsOn :=
                                  Some [getLambdaLogicalId (naming p)
                                          (to_string destinationFnName)]\<rparr>)
                          resourceObj
                   else resourceObj)
            in subscribe p arn pattern fns resourceObj)"

text \<open>The stage that \<open>updateResources\<close> compares with \<open>conf.stages\<close>.\<close>

definition currentStage :: "plugin \<Rightarrow> string" where
  "currentStage p =
     (case options_stage p of
        Str s \<Rightarrow> if length s > 0 then s else stage (provider (service p))
      | _ \<Rightarrow> stage (provider (service p)))"

text \<open>
  The gate of line 31, \<open>conf.stages && conf.stages.indexOf(stage) === -1\<close>: a stages
  list is configured (an empty array is truthy) and does not hold the stage.
\<close>

definition stageExcluded :: "log_forwarding_conf \<Rightarrow> string \<Rightarrow> bool" where
  "stageExcluded c stg = (case stages c of None \<Rightarrow> False | Some l \<Rightarrow> stg \<notin> set l)"

definition log :: "string \<Rightarrow> plugin \<Rightarrow> plugin" where
  "log msg p = p\<lparr>cli_log := cli_log p @ [msg]\<rparr>"

text \<open>
  Lines 39 to 46: \<open>service.resources\<close> and its \<open>Resources\<close> are created empty when
  they are \<open>undefined\<close>, then \<open>Resources\<close> is extended with the new declarations.
\<close>

definition mergeResources :: "resource obj \<Rightarrow> service_resources option \<Rightarrow> service_resources" where
  "mergeResources resourceObj rs =
     (case rs of
        None \<Rightarrow> \<lparr> Resources = Some (extend_obj [] resourceObj) \<rparr>
      | Some r \<Rightarrow>
          (case Resources r of
             None \<Rightarrow> r\<lparr>Resources := Some (extend_obj [] resourceObj)\<rparr>
           | Some rm \<Rightarrow> r\<lparr>Resources := Some (extend_obj rm resourceObj)\<rparr>))"

text \<open>
  \<open>updateResources\<close> returns what the call throws, or \<open>Inr ()\<close> for a normal return,
  together with the plugin's state at that moment.
\<close>

definition updateResources :: "plugin \<Rightarrow> (error + unit) \<times> plugin" where
  "updateResources p =
     (case conf p of
        Inl e \<Rightarrow> (Inl e, p)
      | Inr c \<Rightarrow>
          let stg = currentStage p in
          (case c of
             None \<Rightarrow> (Inl (TypeError ''stages''), p)
           | Some cf \<Rightarrow>
               if stageExcluded cf stg
               then (Inr (), log (''Log Forwarding is ignored for '' @ stg @ '' stage'') p)
               else
                 let p1 = log ''Updating Log Forwarding Resources...'' p in
                 (case createResourcesObj p1 of
                    Inl e \<Rightarrow> (Inl e, p1)
                  | Inr resourceObj \<Rightarrow>
                      let p2 = p1\<lparr>service := (service p1)
                                 \<lparr>resources :=
                                    Some (mergeResources resourceObj (resources (service p1)))\<rparr>\<rparr>
                      in (Inr (), log ''Log Forwarding Resources Updated'' p2))))"

subsection \<open>Notions used to state the properties\<close>

text \<open>
  The names \<open>createResourcesObj\<close> subscribes (the value of \<open>functions\<close> after line
  71), the permission it declares (the value of
  \<open>resourceObj.LogForwardingLambdaPermission\<close> after line 91) and the logical key
  that line 112 gives the filter of a function. Lemma \<open>createResourcesObj_valid\<close>
  below relates them to \<open>createResourcesObj\<close>.
\<close>

definition targets :: "plugin \<Rightarrow> log_forwarding_conf \<Rightarrow> string list" where
  "targets p c =
     (if truthy (destinationFn c)
      then filter (\<lambda>nm. Str nm \<noteq> destinationFn c) (keys (service_functions (service p)))
      else keys (service_functions (service p)))"

definition permission :: "plugin \<Rightarrow> log_forwarding_conf \<Rightarrow> resource" where
  "permission p c =
     \<lparr> Type = ''AWS::Lambda::Permission'',
       Properties =
         [(''FunctionName'', js_or (destinationARN c) (destinationFn c)),
          (''Action'', Str ''lambda:InvokeFunction''),
          (''Principal'', Str (''logs.'' @ region (provider (service p)) @ ''.amazonaws.com''))],
       DependsOn =
         (if truthy (destinationFn c)
          then Some [getLambdaLogicalId (naming p) (to_string (destinationFn c))]
          else None) \<rparr>"

definition filterKey :: "plugin \<Rightarrow> string \<Rightarrow> string" where
  "filterKey p f = ''SubscriptionFilter'' @ getNormalizedFunctionName (naming p) f"

text \<open>
  The entries of the host's \<open>service.resources.Resources\<close>; there are none when
  \<open>service.resources\<close> or its \<open>Resources\<close> is \<open>undefined\<close>.
\<close>

definition hostResources :: "plugin \<Rightarrow> resource obj" where
  "hostResources p =
     (case resources (service p) of
        None \<Rightarrow> []
      | Some r \<Rightarrow> (case Resources r of None \<Rightarrow> [] | Some rm \<Rightarrow> rm))"

subsection \<open>A concrete host\<close>

text \<open>
  A stub of the naming collaborator with an injective normalisation, and a service in
  region \<open>us-east-1\<close>, stage \<open>dev\<close>, whose configuration, catalog and resources are
  given.
\<close>

definition stub_naming :: naming_obj where
  "stub_naming =
     \<lparr> getLambdaLogicalId = (\<lambda>f. f @ ''LambdaFunction''),
       getLogGroupName = (\<lambda>n. ''/aws/lambda/'' @ n),
       getNormalizedFunctionName = (\<lambda>f. f),
       getLogGroupLogicalId = (\<lambda>f. f @ ''LogGroup'') \<rparr>"

definition host :: "log_forwarding_conf \<Rightarrow> function_object obj \<Rightarrow> service_resources option
    \<Rightarrow> plugin" where
  "host c fns rs =
     \<lparr> service =
         \<lparr> custom = Some \<lparr> logForwarding = Some c \<rparr>,
           provider = \<lparr> stage = ''dev'', region = ''us-east-1'' \<rparr>,
           service_functions = fns,
           resources = rs \<rparr>,
       options_stage = Undefined,
       naming = stub_naming,
       cli_log = [] \<rparr>"

definition catalog :: "function_object obj" where
  "catalog = [(''fnA'', \<lparr> name = ''svc-dev-fnA'' \<rparr>), (''fnDest'', \<lparr> name = ''svc-dev-fnDest'' \<rparr>)]"

definition conf_arn :: log_forwarding_conf where
  "conf_arn =
     \<lparr> destinationARN = Str ''arn:aws:lambda:us-east-1:123:function:dest'',
       destinationFn = Undefined, filterPattern = Undefined, stages = None \<rparr>"

definition conf_fn :: log_forwarding_conf where
  "conf_fn =
     \<lparr> destinationARN = Undefined, destinationFn = Str ''fnDest'',
       filterPattern = Str ''ERROR'', stages = None \<rparr>"

text \<open>
  Configurations at the edges: an empty \<open>destinationFn\<close> and nothing else; an empty
  \<open>destinationARN\<close> beside a destination function; no destination at all; and no
  destination with forwarding limited to the stage \<open>prod\<close>.
\<close>

definition conf_empty_fn :: log_forwarding_conf where
  "conf_empty_fn =
     \<lparr> destinationARN = Undefined, destinationFn = Str [],
       filterPattern = Undefined, stages = None \<rparr>"

definition conf_empty_arn :: log_forwarding_conf where
  "conf_empty_arn =
     \<lparr> destinationARN = Str [], destinationFn = Str ''fnDest'',
       filterPattern = Undefined, stages = None \<rparr>"

definition conf_none :: log_forwarding_conf where
  "conf_none =
     \<lparr> destinationARN = Undefined, destinationFn = Null,
       filterPattern = Undefined, stages = None \<rparr>"

definition conf_prod :: log_forwarding_conf where
  "conf_prod =
     \<lparr> destinationARN = Undefined, destinationFn = Undefined,
       filterPattern = Undefined, stages = Some [''prod''] \<rparr>"

text \<open>A catalog with a function whose name is the empty string.\<close>

definition catalog_empty_name :: "function_object obj" where
  "catalog_empty_name = [([], \<lparr> name = ''svc-dev-'' \<rparr>), (''fnA'', \<lparr> name = ''svc-dev-fnA'' \<rparr>)]"

text \<open>Resources the service declares itself, one of them under the permission's key.\<close>

definition own_resources :: service_resources where
  "own_resources =
     \<lparr> Resources = Some
         [(''Bucket'', \<lparr> Type = ''AWS::S3::Bucket'', Properties = [], DependsOn = None \<rparr>),
          (''LogForwardingLambdaPermission'',
           \<lparr> Type = ''AWS::SNS::Topic'', Properties = [], DependsOn = None \<rparr>)] \<rparr>"

section \<open>Lemmas\<close>

subsection \<open>The subscription loop\<close>

lemma createResourcesObj_valid:
  assumes "conf p = Inr (Some c)"
    and "\<not> (eq_null (destinationARN c) \<and> eq_null (destinationFn c))"
  shows "createResourcesObj p =
         subscribe p (destinationARN c) (js_or (filterPattern c) (Str '''')) (targets p c)
           [(''LogForwardingLambdaPermission'', permission p c)]"
  using assms by (auto simp add: createResourcesObj_def targets_def permission_def Let_def)

lemma createResourcesObj_InrD:
  assumes "createResourcesObj p = Inr ob"
  obtains c where "conf p = Inr (Some c)"
    and "\<not> (eq_null (destinationARN c) \<and> eq_null (destinationFn c))"
    and "subscribe p (destinationARN c) (js_or (filterPattern c) (Str '''')) (targets p c)
           [(''LogForwardingLambdaPermission'', permission p c)] = Inr ob"
proof -
  from assms obtain c where c: "conf p = Inr (Some c)"
    and valid: "\<not> (eq_null (destinationARN c) \<and> eq_null (destinationFn c))"
    by (auto simp add: createResourcesObj_def split: sum.splits option.splits if_splits)
  from createResourcesObj_valid [OF c valid] assms that [OF c valid] show thesis by simp
qed

lemma extend_obj_single: "extend_obj dest [(k, v)] = AList.update k v dest"
  by (simp add: extend_obj_def)

lemma makeSubscriptionFilter_Some:
  assumes "map_of (service_functions (service p)) f = Some fo"
  shows "makeSubscriptionFilter p arn f pat =
         Inr [(filterKey p f,
               \<lparr> Type = ''AWS::Logs::SubscriptionFilter'',
                 Properties = [(''DestinationArn'', arn), (''FilterPattern'', pat),
                               (''LogGroupName'', Str (getLogGroupName (naming p) (name fo)))],
                 DependsOn = Some [''LogForwardingLambdaPermission'',
                                   getLogGroupLogicalId (naming p) f] \<rparr>)]"
  using assms by (simp add: makeSubscriptionFilter_def getFunction_def filterKey_def)

lemma makeSubscriptionFilter_Inr:
  assumes "makeSubscriptionFilter p arn f pat = Inr flt"
  shows "\<exists>fo. map_of (service_functions (service p)) f = Some fo \<and>
          flt = [(filterKey p f,
               \<lparr> Type = ''AWS::Logs::SubscriptionFilter'',
                 Properties = [(''DestinationArn'', arn), (''FilterPattern'', pat),
                               (''LogGroupName'', Str (getLogGroupName (naming p) (name fo)))],
                 DependsOn = Some [''LogForwardingLambdaPermission'',
                                   getLogGroupLogicalId (naming p) f] \<rparr>)]"
  using assms
  by (auto simp add: makeSubscriptionFilter_def getFunction_def filterKey_def split: option.splits)

lemma filter_type:
  assumes "makeSubscriptionFilter p arn f pat = Inr [e]"
  shows "Type (snd e) = ''AWS::Logs::SubscriptionFilter'' \<and> fst e = filterKey p f"
  using makeSubscriptionFilter_Inr [OF assms] by auto

lemma subscribe_total:
  "set fs \<subseteq> fst ` set (service_functions (service p)) \<Longrightarrow>
   \<exists>r. subscribe p arn pat fs acc = Inr r"
proof (induction fs arbitrary: acc)
  case Nil
  show ?case by simp
next
  case (Cons f fs)
  from Cons.prems have "f \<in> fst ` set (service_functions (service p))" by simp
  then obtain fo where "map_of (service_functions (service p)) f = Some fo"
    by (metis domD dom_map_of_conv_image_fst)
  then show ?case using Cons by (simp add: makeSubscriptionFilter_Some)
qed

lemma subscribe_step:
  assumes "subscribe p arn pat (f # fs) acc = Inr r"
  obtains d where "makeSubscriptionFilter p arn f pat = Inr [(filterKey p f, d)]"
    and "subscribe p arn pat fs (AList.update (filterKey p f) d acc) = Inr r"
proof -
  from assms obtain flt where
    flt: "makeSubscriptionFilter p arn f pat = Inr flt"
    and rest: "subscribe p arn pat fs (extend_obj acc flt) = Inr r"
    by (auto split: sum.splits)
  from makeSubscriptionFilter_Inr [OF flt] obtain d where d: "flt = [(filterKey p f, d)]"
    by blast
  show thesis using that [of d] flt rest by (simp add: d extend_obj_single)
qed

lemma subscribe_keys:
  "subscribe p arn pat fs acc = Inr r \<Longrightarrow>
   fst ` set r = fst ` set acc \<union> filterKey p ` set fs"
proof (induction fs arbitrary: acc)
  case Nil
  then show ?case by simp
next
  case (Cons f fs)
  from Cons.prems obtain d where
    rest: "subscribe p arn pat fs (AList.update (filterKey p f) d acc) = Inr r"
    by (rule subscribe_step)
  from Cons.IH [OF rest] show ?case by (simp add: dom_update)
qed

lemma subscribe_distinct:
  "subscribe p arn pat fs acc = Inr r \<Longrightarrow> distinct (map fst acc) \<Longrightarrow> distinct (map fst r)"
proof (induction fs arbitrary: acc)
  case Nil
  then show ?case by simp
next
  case (Cons f fs)
  from Cons.prems(1) obtain d where
    rest: "subscribe p arn pat fs (AList.update (filterKey p f) d acc) = Inr r"
    by (rule subscribe_step)
  from Cons.IH [OF rest] Cons.prems(2) show ?case by (simp add: distinct_update)
qed

lemma set_update_subset: "set (AList.update k v al) \<subseteq> insert (k, v) (set al)"
  by (induction al) auto

lemma subscribe_origin:
  "subscribe p arn pat fs acc = Inr r \<Longrightarrow> e \<in> set r \<Longrightarrow>
   e \<in> set acc \<or> (\<exists>f \<in> set fs. makeSubscriptionFilter p arn f pat = Inr [e])"
proof (induction fs arbitrary: acc)
  case Nil
  then show ?case by simp
next
  case (Cons f fs)
  from Cons.prems(1) obtain d where
    flt: "makeSubscriptionFilter p arn f pat = Inr [(filterKey p f, d)]"
    and rest: "subscribe p arn pat fs (AList.update (filterKey p f) d acc) = Inr r"
    by (rule subscribe_step)
  from Cons.IH [OF rest Cons.prems(2)]
  show ?case
  proof
    assume "e \<in> set (AList.update (filterKey p f) d acc)"
    then have "e = (filterKey p f, d) \<or> e \<in> set acc"
      using set_update_subset [of "filterKey p f" d acc] by auto
    then show ?thesis using flt by auto
  next
    assume "\<exists>f \<in> set fs. makeSubscriptionFilter p arn f pat = Inr [e]"
    then show ?thesis by auto
  qed
qed

lemma subscribe_other:
  "subscribe p arn pat fs acc = Inr r \<Longrightarrow> k \<notin> filterKey p ` set fs \<Longrightarrow>
   map_of r k = map_of acc k"
proof (induction fs arbitrary: acc)
  case Nil
  then show ?case by simp
next
  case (Cons f fs)
  from Cons.prems(1) obtain d where
    rest: "subscribe p arn pat fs (AList.update (filterKey p f) d acc) = Inr r"
    by (rule subscribe_step)
  from Cons.prems(2) have "k \<noteq> filterKey p f" "k \<notin> filterKey p ` set fs" by auto
  with Cons.IH [OF rest] show ?case by (simp add: update_conv')
qed

lemma subscribe_present:
  assumes "subscribe p arn pat fs acc = Inr r"
    and "f \<in> set fs"
  shows "\<exists>g \<in> set fs. \<exists>d. filterKey p g = filterKey p f \<and>
             makeSubscriptionFilter p arn g pat = Inr [(filterKey p f, d)] \<and>
             map_of r (filterKey p f) = Some d"
  using assms
proof (induction fs arbitrary: acc f)
  case Nil
  then show ?case by simp
next
  case (Cons h fs)
  from Cons.prems(1) obtain d where
    flt: "makeSubscriptionFilter p arn h pat = Inr [(filterKey p h, d)]"
    and rest: "subscribe p arn pat fs (AList.update (filterKey p h) d acc) = Inr r"
    by (rule subscribe_step)
  show ?case
  proof (cases "filterKey p f \<in> filterKey p ` set fs")
    case True
    then obtain f' where f': "f' \<in> set fs" and same: "filterKey p f' = filterKey p f"
      by auto
    from Cons.IH [OF rest f'] obtain g d' where
      "g \<in> set fs" "filterKey p g = filterKey p f'"
      "makeSubscriptionFilter p arn g pat = Inr [(filterKey p f', d')]"
      "map_of r (filterKey p f') = Some d'"
      by blast
    with same show ?thesis by auto
  next
    case False
    then have "f \<notin> set fs" by auto
    with Cons.prems(2) have fh: "f = h" by simp
    from subscribe_other [OF rest False]
    have "map_of r (filterKey p f) = Some d" by (simp add: fh update_conv')
    with flt fh show ?thesis by auto
  qed
qed

lemma map_of_distinct_filter:
  "distinct (map fst ob) \<Longrightarrow> map_of ob k = Some d \<Longrightarrow> [e \<leftarrow> ob. fst e = k] = [(k, d)]"
proof (induction ob)
  case Nil
  then show ?case by simp
next
  case (Cons x ob)
  show ?case
  proof (cases "fst x = k")
    case True
    with Cons.prems have "x = (k, d)" by (cases x) simp
    moreover from Cons.prems(1) True have "k \<notin> fst ` set ob" by auto
    then have "[e \<leftarrow> ob. fst e = k] = []" by (auto simp add: filter_empty_conv)
    ultimately show ?thesis by simp
  next
    case False
    with Cons show ?thesis by (cases x) auto
  qed
qed

subsection \<open>The object \<open>createResourcesObj\<close> returns\<close>

lemma targets_subset: "set (targets p c) \<subseteq> fst ` set (service_functions (service p))"
  by (auto simp add: targets_def keys_def)

lemma createResourcesObj_total:
  assumes "conf p = Inr (Some c)"
    and "\<not> (eq_null (destinationARN c) \<and> eq_null (destinationFn c))"
  shows "\<exists>ob. createResourcesObj p = Inr ob"
  using createResourcesObj_valid [OF assms] subscribe_total [OF targets_subset] by simp

lemma filterKey_not_permission: "filterKey p f \<noteq> ''LogForwardingLambdaPermission''"
  by (simp add: filterKey_def)

lemma createResourcesObj_distinct:
  assumes "createResourcesObj p = Inr ob"
  shows "distinct (map fst ob)"
proof -
  from assms obtain c where
    sub: "subscribe p (destinationARN c) (js_or (filterPattern c) (Str '''')) (targets p c)
           [(''LogForwardingLambdaPermission'', permission p c)] = Inr ob"
    by (rule createResourcesObj_InrD)
  from subscribe_distinct [OF sub] show ?thesis by simp
qed

lemma createResourcesObj_permission:
  assumes "conf p = Inr (Some c)" and "createResourcesObj p = Inr ob"
  shows "[e \<leftarrow> ob. fst e = ''LogForwardingLambdaPermission''] =
         [(''LogForwardingLambdaPermission'', permission p c)]"
proof -
  from assms(2) obtain c' where c': "conf p = Inr (Some c')"
    and sub': "subscribe p (destinationARN c') (js_or (filterPattern c') (Str '''')) (targets p c')
           [(''LogForwardingLambdaPermission'', permission p c')] = Inr ob"
    by (rule createResourcesObj_InrD)
  from c' assms(1) have "c' = c" by simp
  with sub' have sub: "subscribe p (destinationARN c) (js_or (filterPattern c) (Str ''''))
      (targets p c) [(''LogForwardingLambdaPermission'', permission p c)] = Inr ob" by simp
  have "''LogForwardingLambdaPermission'' \<notin> filterKey p ` set (targets p c)"
    using filterKey_not_permission by fastforce
  from subscribe_other [OF sub this]
  have "map_of ob ''LogForwardingLambdaPermission'' = Some (permission p c)" by simp
  with createResourcesObj_distinct [OF assms(2)] show ?thesis
    by (rule map_of_distinct_filter)
qed

lemma createResourcesObj_entries:
  assumes "conf p = Inr (Some c)" and "createResourcesObj p = Inr ob" and "e \<in> set ob"
  shows "e = (''LogForwardingLambdaPermission'', permission p c) \<or>
         (\<exists>f \<in> set (targets p c).
            makeSubscriptionFilter p (destinationARN c) f (js_or (filterPattern c) (Str ''''))
              = Inr [e])"
proof -
  from assms(2) obtain c' where c': "conf p = Inr (Some c')"
    and sub': "subscribe p (destinationARN c') (js_or (filterPattern c') (Str '''')) (targets p c')
           [(''LogForwardingLambdaPermission'', permission p c')] = Inr ob"
    by (rule createResourcesObj_InrD)
  from c' assms(1) have "c' = c" by simp
  with sub' have sub: "subscribe p (destinationARN c) (js_or (filterPattern c) (Str ''''))
      (targets p c) [(''LogForwardingLambdaPermission'', permission p c)] = Inr ob" by simp
  from subscribe_origin [OF sub assms(3)] show ?thesis by simp
qed

lemma createResourcesObj_present:
  assumes "conf p = Inr (Some c)" and "createResourcesObj p = Inr ob"
    and "f \<in> set (targets p c)"
  shows "\<exists>g \<in> set (targets p c). \<exists>e. filterKey p g = filterKey p f \<and>
           makeSubscriptionFilter p (destinationARN c) g (js_or (filterPattern c) (Str ''''))
               = Inr [e] \<and> [x \<leftarrow> ob. fst x = filterKey p f] = [e]"
proof -
  from assms(2) obtain c' where c': "conf p = Inr (Some c')"
    and sub': "subscribe p (destinationARN c') (js_or (filterPattern c') (Str '''')) (targets p c')
           [(''LogForwardingLambdaPermission'', permission p c')] = Inr ob"
    by (rule createResourcesObj_InrD)
  from c' assms(1) have "c' = c" by simp
  with sub' have sub: "subscribe p (destinationARN c) (js_or (filterPattern c) (Str ''''))
      (targets p c) [(''LogForwardingLambdaPermission'', permission p c)] = Inr ob" by simp
  from subscribe_present [OF sub assms(3)] obtain g d where
    g: "g \<in> set (targets p c)" "filterKey p g = filterKey p f"
    and d: "makeSubscriptionFilter p (destinationARN c) g (js_or (filterPattern c) (Str ''''))
          = Inr [(filterKey p f, d)]"
    and m: "map_of ob (filterKey p f) = Some d" by blast
  from map_of_distinct_filter [OF createResourcesObj_distinct [OF assms(2)] m]
  have "[x \<leftarrow> ob. fst x = filterKey p f] = [(filterKey p f, d)]" .
  with g d show ?thesis by blast
qed

lemma filterKey_eq: "filterKey p g = filterKey p f \<longleftrightarrow>
    getNormalizedFunctionName (naming p) g = getNormalizedFunctionName (naming p) f"
  by (simp add: filterKey_def)

lemma createResourcesObj_keys:
  assumes "conf p = Inr (Some c)" and "createResourcesObj p = Inr ob"
  shows "fst ` set ob = insert ''LogForwardingLambdaPermission'' (filterKey p ` set (targets p c))"
proof -
  from assms(2) obtain c' where c': "conf p = Inr (Some c')"
    and sub': "subscribe p (destinationARN c') (js_or (filterPattern c') (Str '''')) (targets p c')
           [(''LogForwardingLambdaPermission'', permission p c')] = Inr ob"
    by (rule createResourcesObj_InrD)
  from c' assms(1) have "c' = c" by simp
  with sub' have sub: "subscribe p (destinationARN c) (js_or (filterPattern c) (Str ''''))
      (targets p c) [(''LogForwardingLambdaPermission'', permission p c)] = Inr ob" by simp
  from subscribe_keys [OF sub] show ?thesis by simp
qed

subsection \<open>What \<open>updateResources\<close> does\<close>

lemma service_log [simp]: "service (log m p) = service p"
  by (simp add: log_def)

lemma naming_log [simp]: "naming (log m p) = naming p"
  by (simp add: log_def)

lemma getFunction_log [simp]: "getFunction (log m p) f = getFunction p f"
  by (simp add: getFunction_def)

lemma makeSubscriptionFilter_log [simp]:
  "makeSubscriptionFilter (log m p) arn f pat = makeSubscriptionFilter p arn f pat"
  by (cases "getFunction p f") (simp_all add: makeSubscriptionFilter_def)

lemma subscribe_log [simp]:
  "subscribe (log m p) arn pat fs acc = subscribe p arn pat fs acc"
  by (induction fs arbitrary: acc) (simp_all split: sum.splits)

lemma conf_log [simp]: "conf (log m p) = conf p"
  by (simp add: conf_def log_def)

lemma createResourcesObj_log [simp]: "createResourcesObj (log m p) = createResourcesObj p"
  by (simp add: createResourcesObj_def Let_def split: sum.splits option.splits)

lemma update_fresh:
  "k \<notin> fst ` set al \<Longrightarrow> AList.update k v al = al @ [(k, v)]"
  by (induction al) auto

lemma extend_obj_Cons:
  "extend_obj dest ((k, v) # src) = extend_obj (AList.update k v dest) src"
  by (simp add: extend_obj_def)

lemma extend_obj_fresh:
  "distinct (map fst (dest @ src)) \<Longrightarrow> extend_obj dest src = dest @ src"
proof (induction src arbitrary: dest)
  case Nil
  show ?case by (simp add: extend_obj_def)
next
  case (Cons x src)
  obtain k v where x: "x = (k, v)" by (cases x)
  from Cons.prems x have fresh: "k \<notin> fst ` set dest" by auto
  from Cons.prems x have "distinct (map fst ((dest @ [(k, v)]) @ src))" by auto
  from Cons.IH [OF this] show ?case
    by (simp add: x extend_obj_Cons update_fresh [OF fresh])
qed

lemma map_of_extend_obj:
  "distinct (map fst src) \<Longrightarrow>
   map_of (extend_obj dest src) k =
     (case map_of src k of Some v \<Rightarrow> Some v | None \<Rightarrow> map_of dest k)"
proof (induction src arbitrary: dest)
  case Nil
  show ?case by (simp add: extend_obj_def)
next
  case (Cons x src)
  obtain k' v where x: "x = (k', v)" by (cases x)
  from Cons.prems x have fresh: "k' \<notin> fst ` set src" and d: "distinct (map fst src)" by auto
  from fresh have none: "map_of src k' = None" by (simp add: map_of_eq_None_iff)
  from Cons.IH [OF d, of "AList.update k' v dest"] none show ?case
    by (simp add: x extend_obj_Cons update_conv' split: option.splits)
qed

lemma updateResources_run:
  assumes "conf p = Inr (Some c)" and "\<not> stageExcluded c (currentStage p)"
  shows "updateResources p =
    (case createResourcesObj p of
       Inl e \<Rightarrow> (Inl e, log ''Updating Log Forwarding Resources...'' p)
     | Inr resourceObj \<Rightarrow>
         (Inr (),
          log ''Log Forwarding Resources Updated''
            ((log ''Updating Log Forwarding Resources...'' p)
               \<lparr>service := (service p)
                  \<lparr>resources := Some (mergeResources resourceObj (resources (service p)))\<rparr>\<rparr>)))"
  using assms by (simp add: updateResources_def Let_def split: sum.splits)

subsection \<open>The scenarios of the specification, evaluated\<close>

lemma host_conf: "conf (host c fns rs) = Inr (Some c)"
  by (simp add: conf_def host_def)

lemma host_naming: "naming (host c fns rs) = stub_naming"
  by (simp add: host_def)

lemma host_functions: "service_functions (service (host c fns rs)) = fns"
  by (simp add: host_def)

lemmas plugin_defs =
  createResourcesObj_def conf_def host_def makeSubscriptionFilter_def getFunction_def
  extend_obj_def keys_def js_or_def stub_naming_def catalog_def Let_def

text \<open>Scenario A: two functions, an external destination, no filter pattern.\<close>

lemma scenario_A:
  "createResourcesObj (host conf_arn catalog None) =
   Inr [(''LogForwardingLambdaPermission'',
         \<lparr> Type = ''AWS::Lambda::Permission'',
           Properties =
             [(''FunctionName'', Str ''arn:aws:lambda:us-east-1:123:function:dest''),
              (''Action'', Str ''lambda:InvokeFunction''),
              (''Principal'', Str ''logs.us-east-1.amazonaws.com'')],
           DependsOn = None \<rparr>),
        (''SubscriptionFilterfnA'',
         \<lparr> Type = ''AWS::Logs::SubscriptionFilter'',
           Properties =
             [(''DestinationArn'', Str ''arn:aws:lambda:us-east-1:123:function:dest''),
              (''FilterPattern'', Str ''''),
              (''LogGroupName'', Str ''/aws/lambda/svc-dev-fnA'')],
           DependsOn = Some [''LogForwardingLambdaPermission'', ''fnALogGroup''] \<rparr>),
        (''SubscriptionFilterfnDest'',
         \<lparr> Type = ''AWS::Logs::SubscriptionFilter'',
           Properties =
             [(''DestinationArn'', Str ''arn:aws:lambda:us-east-1:123:function:dest''),
              (''FilterPattern'', Str ''''),
              (''LogGroupName'', Str ''/aws/lambda/svc-dev-fnDest'')],
           DependsOn = Some [''LogForwardingLambdaPermission'', ''fnDestLogGroup''] \<rparr>)]"
  by (simp add: plugin_defs conf_arn_def)

text \<open>Scenario B: the destination is the function \<open>fnDest\<close> of the service.\<close>

lemma scenario_B:
  "createResourcesObj (host conf_fn catalog None) =
   Inr [(''LogForwardingLambdaPermission'',
         \<lparr> Type = ''AWS::Lambda::Permission'',
           Properties =
             [(''FunctionName'', Str ''fnDest''),
              (''Action'', Str ''lambda:InvokeFunction''),
              (''Principal'', Str ''logs.us-east-1.amazonaws.com'')],
           DependsOn = Some [''fnDestLambdaFunction''] \<rparr>),
        (''SubscriptionFilterfnA'',
         \<lparr> Type = ''AWS::Logs::SubscriptionFilter'',
           Properties =
             [(''DestinationArn'', Undefined),
              (''FilterPattern'', Str ''ERROR''),
              (''LogGroupName'', Str ''/aws/lambda/svc-dev-fnA'')],
           DependsOn = Some [''LogForwardingLambdaPermission'', ''fnALogGroup''] \<rparr>)]"
  by (simp add: plugin_defs conf_fn_def)

section \<open>The claims\<close>

subsection \<open>C1: which functions are subscribed\<close>

text \<open>
  C1, as the code has it, for any naming collaborator. If \<open>destinationFn\<close> is a
  non-empty string, the object \<open>createResourcesObj\<close> returns holds, for every function
  of the catalog other than the destination function, exactly one entry under that
  function's filter key, and it is the filter made for a function of the catalog, other
  than the destination function, with the same normalised name: the function itself when
  no other shares its normalised name. Every entry but the permission is the filter made
  for a function of the catalog other than the destination function, so none is made for
  the destination function; and there is no entry under the destination function's filter
  key unless another function shares its normalised name. If \<open>destinationFn\<close> is
  absent, null or the empty string, every function of the catalog has exactly one entry
  under its filter key, the filter made for a function of the catalog with the same
  normalised name.
\<close>

theorem subscriptions_cover_catalog:
  assumes "conf p = Inr (Some c)"
    and "\<not> (eq_null (destinationARN c) \<and> eq_null (destinationFn c))"
  shows "\<exists>ob. createResourcesObj p = Inr ob \<and>
     (\<forall>d. destinationFn c = Str d \<and> d \<noteq> [] \<longrightarrow>
        (\<forall>f \<in> set (keys (service_functions (service p))). f \<noteq> d \<longrightarrow>
           (\<exists>e. [x \<leftarrow> ob. fst x = filterKey p f] = [e] \<and>
              (\<exists>g \<in> set (keys (service_functions (service p))). g \<noteq> d \<and>
                 getNormalizedFunctionName (naming p) g =
                   getNormalizedFunctionName (naming p) f \<and>
                 makeSubscriptionFilter p (destinationARN c) g
                   (js_or (filterPattern c) (Str '''')) = Inr [e]))) \<and>
        (\<forall>e \<in> set ob. fst e \<noteq> ''LogForwardingLambdaPermission'' \<longrightarrow>
           (\<exists>g \<in> set (keys (service_functions (service p))). g \<noteq> d \<and>
              makeSubscriptionFilter p (destinationARN c) g
                (js_or (filterPattern c) (Str '''')) = Inr [e])) \<and>
        ((\<forall>g \<in> set (keys (service_functions (service p))).
            getNormalizedFunctionName (naming p) g =
              getNormalizedFunctionName (naming p) d \<longrightarrow> g = d) \<longrightarrow>
           [x \<leftarrow> ob. fst x = filterKey p d] = [])) \<and>
     (\<not> truthy (destinationFn c) \<longrightarrow>
        (\<forall>f \<in> set (keys (service_functions (service p))).
           (\<exists>e. [x \<leftarrow> ob. fst x = filterKey p f] = [e] \<and>
              (\<exists>g \<in> set (keys (service_functions (service p))).
                 getNormalizedFunctionName (naming p) g =
                   getNormalizedFunctionName (naming p) f \<and>
                 makeSubscriptionFilter p (destinationARN c) g
                   (js_or (filterPattern c) (Str '''')) = Inr [e]))))"
proof -
  let ?names = "keys (service_functions (service p))"
  let ?norm = "getNormalizedFunctionName (naming p)"
  let ?make = "\<lambda>g. makeSubscriptionFilter p (destinationARN c) g
                   (js_or (filterPattern c) (Str ''''))"
  from createResourcesObj_total [OF assms(1,2)] obtain ob where ob: "createResourcesObj p = Inr ob"
    by blast
  have covered: "\<exists>e. [x \<leftarrow> ob. fst x = filterKey p f] = [e] \<and>
      (\<exists>g \<in> set (targets p c). ?norm g = ?norm f \<and> ?make g = Inr [e])"
    if "f \<in> set (targets p c)" for f
    using createResourcesObj_present [OF assms(1) ob that] by (auto simp add: filterKey_eq)
  have made: "\<exists>g \<in> set (targets p c). ?make g = Inr [e]"
    if "e \<in> set ob" "fst e \<noteq> ''LogForwardingLambdaPermission''" for e
    using createResourcesObj_entries [OF assms(1) ob that(1)] that(2) by auto
  have internal:
    "(\<forall>f \<in> set ?names. f \<noteq> d \<longrightarrow>
        (\<exists>e. [x \<leftarrow> ob. fst x = filterKey p f] = [e] \<and>
           (\<exists>g \<in> set ?names. g \<noteq> d \<and> ?norm g = ?norm f \<and> ?make g = Inr [e]))) \<and>
     (\<forall>e \<in> set ob. fst e \<noteq> ''LogForwardingLambdaPermission'' \<longrightarrow>
        (\<exists>g \<in> set ?names. g \<noteq> d \<and> ?make g = Inr [e])) \<and>
     ((\<forall>g \<in> set ?names. ?norm g = ?norm d \<longrightarrow> g = d) \<longrightarrow>
        [x \<leftarrow> ob. fst x = filterKey p d] = [])"
    if d: "destinationFn c = Str d" "d \<noteq> []" for d
  proof -
    have t: "set (targets p c) = set ?names - {d}"
      using d by (auto simp add: targets_def)
    have one: "\<forall>f \<in> set ?names. f \<noteq> d \<longrightarrow>
        (\<exists>e. [x \<leftarrow> ob. fst x = filterKey p f] = [e] \<and>
           (\<exists>g \<in> set ?names. g \<noteq> d \<and> ?norm g = ?norm f \<and> ?make g = Inr [e]))"
    proof (intro ballI impI)
      fix f assume "f \<in> set ?names" "f \<noteq> d"
      then have "f \<in> set (targets p c)" by (simp add: t)
      from covered [OF this] show "\<exists>e. [x \<leftarrow> ob. fst x = filterKey p f] = [e] \<and>
           (\<exists>g \<in> set ?names. g \<noteq> d \<and> ?norm g = ?norm f \<and> ?make g = Inr [e])"
        by (auto simp add: t)
    qed
    have loop: "\<forall>e \<in> set ob. fst e \<noteq> ''LogForwardingLambdaPermission'' \<longrightarrow>
        (\<exists>g \<in> set ?names. g \<noteq> d \<and> ?make g = Inr [e])"
    proof (intro ballI impI)
      fix e assume "e \<in> set ob" "fst e \<noteq> ''LogForwardingLambdaPermission''"
      from made [OF this] show "\<exists>g \<in> set ?names. g \<noteq> d \<and> ?make g = Inr [e]"
        by (auto simp add: t)
    qed
    have none: "[x \<leftarrow> ob. fst x = filterKey p d] = []"
      if alone: "\<forall>g \<in> set ?names. ?norm g = ?norm d \<longrightarrow> g = d"
    proof -
      have "fst e \<noteq> filterKey p d" if e: "e \<in> set ob" for e
      proof
        assume k: "fst e = filterKey p d"
        then have "fst e \<noteq> ''LogForwardingLambdaPermission''"
          by (simp add: filterKey_not_permission)
        with loop e obtain g where g: "g \<in> set ?names" "g \<noteq> d" "?make g = Inr [e]"
          by blast
        from filter_type [OF g(3)] k have "?norm g = ?norm d"
          by (simp add: filterKey_eq)
        with alone g(1,2) show False by blast
      qed
      then show ?thesis by (auto simp add: filter_empty_conv)
    qed
    from one loop none show ?thesis by blast
  qed
  have external: "\<forall>f \<in> set ?names.
        (\<exists>e. [x \<leftarrow> ob. fst x = filterKey p f] = [e] \<and>
           (\<exists>g \<in> set ?names. ?norm g = ?norm f \<and> ?make g = Inr [e]))"
    if n: "\<not> truthy (destinationFn c)"
  proof -
    from n have t: "targets p c = ?names" by (simp add: targets_def)
    from covered show ?thesis by (simp add: t)
  qed
  from ob internal external show ?thesis by blast
qed

text \<open>
  With the destination function \<open>fnDest\<close>, the function \<open>fnA\<close> has its one filter,
  its own, and there is nothing under the key of \<open>fnDest\<close>; with an external
  destination, \<open>fnDest\<close> has its one filter, its own.
\<close>

theorem subscriptions_cover_catalog_witness:
  "(\<exists>ob. createResourcesObj (host conf_fn catalog None) = Inr ob \<and>
     (\<exists>e. makeSubscriptionFilter (host conf_fn catalog None) Undefined ''fnA'' (Str ''ERROR'')
             = Inr [e] \<and>
          [x \<leftarrow> ob. fst x = ''SubscriptionFilterfnA''] = [e]) \<and>
     [x \<leftarrow> ob. fst x = ''SubscriptionFilterfnDest''] = []) \<and>
   (\<exists>ob. createResourcesObj (host conf_arn catalog None) = Inr ob \<and>
     (\<exists>e. makeSubscriptionFilter (host conf_arn catalog None)
             (Str ''arn:aws:lambda:us-east-1:123:function:dest'') ''fnDest'' (Str [])
             = Inr [e] \<and>
          [x \<leftarrow> ob. fst x = ''SubscriptionFilterfnDest''] = [e]))"
proof -
  let ?H = "host conf_fn catalog None"
  have valid: "\<not> (eq_null (destinationARN conf_fn) \<and> eq_null (destinationFn conf_fn))"
    by (simp add: conf_fn_def)
  have d: "destinationFn conf_fn = Str ''fnDest'' \<and> ''fnDest'' \<noteq> []"
    by (simp add: conf_fn_def)
  have names: "set (keys (service_functions (service ?H))) = {''fnA'', ''fnDest''}"
    by (simp add: host_functions keys_def catalog_def)
  have norm: "getNormalizedFunctionName (naming ?H) g = g" for g
    by (simp add: host_naming stub_naming_def)
  have key: "filterKey ?H g = ''SubscriptionFilter'' @ g" for g
    by (simp add: filterKey_def norm)
  have arn: "destinationARN conf_fn = Undefined" by (simp add: conf_fn_def)
  have pat: "js_or (filterPattern conf_fn) (Str '''') = Str ''ERROR''"
    by (simp add: conf_fn_def js_or_def)
  from subscriptions_cover_catalog [OF host_conf valid, of catalog None]
  obtain ob where ob: "createResourcesObj ?H = Inr ob"
    and internal: "\<forall>d. destinationFn conf_fn = Str d \<and> d \<noteq> [] \<longrightarrow>
        (\<forall>f \<in> set (keys (service_functions (service ?H))). f \<noteq> d \<longrightarrow>
           (\<exists>e. [x \<leftarrow> ob. fst x = filterKey ?H f] = [e] \<and>
              (\<exists>g \<in> set (keys (service_functions (service ?H))). g \<noteq> d \<and>
                 getNormalizedFunctionName (naming ?H) g =
                   getNormalizedFunctionName (naming ?H) f \<and>
                 makeSubscriptionFilter ?H (destinationARN conf_fn) g
                   (js_or (filterPattern conf_fn) (Str '''')) = Inr [e]))) \<and>
        (\<forall>e \<in> set ob. fst e \<noteq> ''LogForwardingLambdaPermission'' \<longrightarrow>
           (\<exists>g \<in> set (keys (service_functions (service ?H))). g \<noteq> d \<and>
              makeSubscriptionFilter ?H (destinationARN conf_fn) g
                (js_or (filterPattern conf_fn) (Str '''')) = Inr [e])) \<and>
        ((\<forall>g \<in> set (keys (service_functions (service ?H))).
            getNormalizedFunctionName (naming ?H) g =
              getNormalizedFunctionName (naming ?H) d \<longrightarrow> g = d) \<longrightarrow>
           [x \<leftarrow> ob. fst x = filterKey ?H d] = [])"
    by blast
  from internal d have
    a: "\<forall>f \<in> set (keys (service_functions (service ?H))). f \<noteq> ''fnDest'' \<longrightarrow>
           (\<exists>e. [x \<leftarrow> ob. fst x = filterKey ?H f] = [e] \<and>
              (\<exists>g \<in> set (keys (service_functions (service ?H))). g \<noteq> ''fnDest'' \<and>
                 getNormalizedFunctionName (naming ?H) g =
                   getNormalizedFunctionName (naming ?H) f \<and>
                 makeSubscriptionFilter ?H (destinationARN conf_fn) g
                   (js_or (filterPattern conf_fn) (Str '''')) = Inr [e]))"
    and b: "(\<forall>g \<in> set (keys (service_functions (service ?H))).
            getNormalizedFunctionName (naming ?H) g =
              getNormalizedFunctionName (naming ?H) ''fnDest'' \<longrightarrow> g = ''fnDest'') \<longrightarrow>
           [x \<leftarrow> ob. fst x = filterKey ?H ''fnDest''] = []"
    by blast+
  from a names have "\<exists>e. [x \<leftarrow> ob. fst x = filterKey ?H ''fnA''] = [e] \<and>
              (\<exists>g \<in> set (keys (service_functions (service ?H))). g \<noteq> ''fnDest'' \<and>
                 getNormalizedFunctionName (naming ?H) g =
                   getNormalizedFunctionName (naming ?H) ''fnA'' \<and>
                 makeSubscriptionFilter ?H (destinationARN conf_fn) g
                   (js_or (filterPattern conf_fn) (Str '''')) = Inr [e])"
    by simp
  then have "\<exists>e. makeSubscriptionFilter ?H Undefined ''fnA'' (Str ''ERROR'') = Inr [e] \<and>
          [x \<leftarrow> ob. fst x = ''SubscriptionFilterfnA''] = [e]"
    using arn pat by (auto simp add: norm key)
  moreover from b have "[x \<leftarrow> ob. fst x = ''SubscriptionFilterfnDest''] = []"
    by (simp add: norm key)
  ultimately have internal_case:
    "\<exists>ob. createResourcesObj ?H = Inr ob \<and>
     (\<exists>e. makeSubscriptionFilter ?H Undefined ''fnA'' (Str ''ERROR'') = Inr [e] \<and>
          [x \<leftarrow> ob. fst x = ''SubscriptionFilterfnA''] = [e]) \<and>
     [x \<leftarrow> ob. fst x = ''SubscriptionFilterfnDest''] = []"
    using ob by blast
  let ?E = "host conf_arn catalog None"
  have valid': "\<not> (eq_null (destinationARN conf_arn) \<and> eq_null (destinationFn conf_arn))"
    by (simp add: conf_arn_def)
  have n: "\<not> truthy (destinationFn conf_arn)"
    by (simp add: conf_arn_def)
  have names': "set (keys (service_functions (service ?E))) = {''fnA'', ''fnDest''}"
    by (simp add: host_functions keys_def catalog_def)
  have norm': "getNormalizedFunctionName (naming ?E) g = g" for g
    by (simp add: host_naming stub_naming_def)
  have key': "filterKey ?E g = ''SubscriptionFilter'' @ g" for g
    by (simp add: filterKey_def norm')
  have arn': "destinationARN conf_arn = Str ''arn:aws:lambda:us-east-1:123:function:dest''"
    by (simp add: conf_arn_def)
  have pat': "js_or (filterPattern conf_arn) (Str '''') = Str []"
    by (simp add: conf_arn_def js_or_def)
  from subscriptions_cover_catalog [OF host_conf valid', of catalog None]
  obtain ob' where ob': "createResourcesObj ?E = Inr ob'"
    and external: "\<not> truthy (destinationFn conf_arn) \<longrightarrow>
        (\<forall>f \<in> set (keys (service_functions (service ?E))).
           (\<exists>e. [x \<leftarrow> ob'. fst x = filterKey ?E f] = [e] \<and>
              (\<exists>g \<in> set (keys (service_functions (service ?E))).
                 getNormalizedFunctionName (naming ?E) g =
                   getNormalizedFunctionName (naming ?E) f \<and>
                 makeSubscriptionFilter ?E (destinationARN conf_arn) g
                   (js_or (filterPattern conf_arn) (Str '''')) = Inr [e])))"
    by blast
  from external n names'
  have "\<exists>e. [x \<leftarrow> ob'. fst x = filterKey ?E ''fnDest''] = [e] \<and>
              (\<exists>g \<in> set (keys (service_functions (service ?E))).
                 getNormalizedFunctionName (naming ?E) g =
                   getNormalizedFunctionName (naming ?E) ''fnDest'' \<and>
                 makeSubscriptionFilter ?E (destinationARN conf_arn) g
                   (js_or (filterPattern conf_arn) (Str '''')) = Inr [e])"
    by simp
  then have "\<exists>e. makeSubscriptionFilter ?E
             (Str ''arn:aws:lambda:us-east-1:123:function:dest'') ''fnDest'' (Str [])
             = Inr [e] \<and>
          [x \<leftarrow> ob'. fst x = ''SubscriptionFilterfnDest''] = [e]"
    using arn' pat' by (auto simp add: norm' key')
  with ob' internal_case show ?thesis by blast
qed

text \<open>
  C1 as it is written fails where \<open>destinationFn\<close> is configured as the empty string
  and the catalog has a function of that name: the validation accepts the configuration,
  the test \<open>if (destinationFnName)\<close> is false, and the destination function is
  subscribed like any other.
\<close>

theorem subscriptions_cover_catalog_counterexample:
  "destinationFn conf_empty_fn = Str [] \<and>
   keys catalog_empty_name = [[], ''fnA''] \<and>
   createResourcesObj (host conf_empty_fn catalog_empty_name None) =
   Inr [(''LogForwardingLambdaPermission'',
         \<lparr> Type = ''AWS::Lambda::Permission'',
           Properties =
             [(''FunctionName'', Str []),
              (''Action'', Str ''lambda:InvokeFunction''),
              (''Principal'', Str ''logs.us-east-1.amazonaws.com'')],
           DependsOn = None \<rparr>),
        (''SubscriptionFilter'' @ getNormalizedFunctionName stub_naming [],
         \<lparr> Type = ''AWS::Logs::SubscriptionFilter'',
           Properties =
             [(''DestinationArn'', Undefined),
              (''FilterPattern'', Str []),
              (''LogGroupName'', Str ''/aws/lambda/svc-dev-'')],
           DependsOn = Some [''LogForwardingLambdaPermission'', ''LogGroup''] \<rparr>),
        (''SubscriptionFilterfnA'',
         \<lparr> Type = ''AWS::Logs::SubscriptionFilter'',
           Properties =
             [(''DestinationArn'', Undefined),
              (''FilterPattern'', Str []),
              (''LogGroupName'', Str ''/aws/lambda/svc-dev-fnA'')],
           DependsOn = Some [''LogForwardingLambdaPermission'', ''fnALogGroup''] \<rparr>)]"
  by (simp add: plugin_defs catalog_empty_name_def conf_empty_fn_def)

subsection \<open>C2: no destination\<close>

text \<open>
  C2. When \<open>destinationARN\<close> and \<open>destinationFn\<close> are both absent or null,
  \<open>createResourcesObj\<close> throws the configuration error. \<open>updateResources\<close> then
  leaves the host's service, and so its resources, as they were; unless the stage gate
  skips the run, it throws that error, after the first message and before any merge.
\<close>

theorem missing_destination:
  assumes "conf p = Inr (Some c)"
    and "eq_null (destinationARN c)"
    and "eq_null (destinationFn c)"
  shows "createResourcesObj p = Inl (Error config_error) \<and>
         service (snd (updateResources p)) = service p \<and>
         (\<not> stageExcluded c (currentStage p) \<longrightarrow>
            updateResources p =
              (Inl (Error config_error), log ''Updating Log Forwarding Resources...'' p))"
proof -
  from assms have err: "createResourcesObj p = Inl (Error config_error)"
    by (simp add: createResourcesObj_def)
  have "service (snd (updateResources p)) = service p"
    using assms(1) err by (simp add: updateResources_def Let_def)
  moreover have "\<not> stageExcluded c (currentStage p) \<longrightarrow>
            updateResources p =
              (Inl (Error config_error), log ''Updating Log Forwarding Resources...'' p)"
    using updateResources_run [OF assms(1)] err by simp
  ultimately show ?thesis using err by simp
qed

theorem missing_destination_witness:
  "createResourcesObj (host conf_none catalog (Some own_resources)) = Inl (Error config_error) \<and>
   fst (updateResources (host conf_none catalog (Some own_resources))) =
     Inl (Error config_error) \<and>
   resources (service (snd (updateResources (host conf_none catalog (Some own_resources))))) =
     Some own_resources"
proof -
  let ?H = "host conf_none catalog (Some own_resources)"
  have n: "eq_null (destinationARN conf_none)" "eq_null (destinationFn conf_none)"
    by (simp_all add: conf_none_def)
  have gate: "\<not> stageExcluded conf_none (currentStage ?H)"
    by (simp add: stageExcluded_def conf_none_def)
  have "resources (service ?H) = Some own_resources" by (simp add: host_def)
  with missing_destination [OF host_conf n, of catalog "Some own_resources"] gate
  show ?thesis by simp
qed

subsection \<open>C3: one permission\<close>

text \<open>
  C3. For every configuration that names a destination and every catalog,
  \<open>createResourcesObj\<close> returns an object with exactly one declaration of type
  \<open>AWS::Lambda::Permission\<close>. It is the entry under the key
  \<open>LogForwardingLambdaPermission\<close>, which occurs once; every other entry is a
  subscription filter whose key is \<open>SubscriptionFilter\<close> followed by the normalised
  name of a subscribed function, so that no filter replaces the permission.
\<close>

theorem one_permission:
  assumes "conf p = Inr (Some c)"
    and "\<not> (eq_null (destinationARN c) \<and> eq_null (destinationFn c))"
  shows "\<exists>ob. createResourcesObj p = Inr ob \<and>
           [e \<leftarrow> ob. Type (snd e) = ''AWS::Lambda::Permission''] =
             [(''LogForwardingLambdaPermission'', permission p c)] \<and>
           [e \<leftarrow> ob. fst e = ''LogForwardingLambdaPermission''] =
             [(''LogForwardingLambdaPermission'', permission p c)] \<and>
           (\<forall>e \<in> set ob. fst e \<noteq> ''LogForwardingLambdaPermission'' \<longrightarrow>
              Type (snd e) = ''AWS::Logs::SubscriptionFilter'' \<and>
              (\<exists>f \<in> set (targets p c).
                 fst e = ''SubscriptionFilter'' @ getNormalizedFunctionName (naming p) f))"
proof -
  from createResourcesObj_total [OF assms] obtain ob where ob: "createResourcesObj p = Inr ob"
    by blast
  have key: "[e \<leftarrow> ob. fst e = ''LogForwardingLambdaPermission''] =
             [(''LogForwardingLambdaPermission'', permission p c)]"
    by (rule createResourcesObj_permission [OF assms(1) ob])
  have shape: "e = (''LogForwardingLambdaPermission'', permission p c) \<or>
      (Type (snd e) = ''AWS::Logs::SubscriptionFilter'' \<and>
       (\<exists>f \<in> set (targets p c). fst e = filterKey p f))" if "e \<in> set ob" for e
    using createResourcesObj_entries [OF assms(1) ob that] filter_type by blast
  have "(Type (snd e) = ''AWS::Lambda::Permission'') = (fst e = ''LogForwardingLambdaPermission'')"
    if "e \<in> set ob" for e
    using shape [OF that] by (auto simp add: permission_def filterKey_def)
  then have "[e \<leftarrow> ob. Type (snd e) = ''AWS::Lambda::Permission''] =
             [e \<leftarrow> ob. fst e = ''LogForwardingLambdaPermission'']"
    by (auto intro: filter_cong)
  moreover have "\<forall>e \<in> set ob. fst e \<noteq> ''LogForwardingLambdaPermission'' \<longrightarrow>
              Type (snd e) = ''AWS::Logs::SubscriptionFilter'' \<and>
              (\<exists>f \<in> set (targets p c).
                 fst e = ''SubscriptionFilter'' @ getNormalizedFunctionName (naming p) f)"
    using shape by (fastforce simp add: filterKey_def)
  ultimately show ?thesis using ob key by simp
qed

theorem one_permission_witness:
  "\<exists>ob. createResourcesObj (host conf_arn catalog None) = Inr ob \<and>
     [e \<leftarrow> ob. Type (snd e) = ''AWS::Lambda::Permission''] =
       [(''LogForwardingLambdaPermission'',
         \<lparr> Type = ''AWS::Lambda::Permission'',
           Properties =
             [(''FunctionName'', Str ''arn:aws:lambda:us-east-1:123:function:dest''),
              (''Action'', Str ''lambda:InvokeFunction''),
              (''Principal'', Str ''logs.us-east-1.amazonaws.com'')],
           DependsOn = None \<rparr>)]"
proof -
  have valid: "\<not> (eq_null (destinationARN conf_arn) \<and> eq_null (destinationFn conf_arn))"
    by (simp add: conf_arn_def)
  have perm: "permission (host conf_arn catalog None) conf_arn =
         \<lparr> Type = ''AWS::Lambda::Permission'',
           Properties =
             [(''FunctionName'', Str ''arn:aws:lambda:us-east-1:123:function:dest''),
              (''Action'', Str ''lambda:InvokeFunction''),
              (''Principal'', Str ''logs.us-east-1.amazonaws.com'')],
           DependsOn = None \<rparr>"
    by (simp add: permission_def host_def conf_arn_def js_or_def)
  from one_permission [OF host_conf valid, of catalog None] show ?thesis
    unfolding perm by blast
qed

subsection \<open>C4: what a subscription filter depends on\<close>

text \<open>
  C4. The filter \<open>makeSubscriptionFilter\<close> makes for a function has the key
  \<open>SubscriptionFilter\<close> followed by the normalised function name, and depends on
  exactly \<open>LogForwardingLambdaPermission\<close> and the logical id of the function's own
  log group; and every subscription filter in the object \<open>createResourcesObj\<close> returns
  is of this form, for a function of the catalog.
\<close>

theorem filter_depends_on:
  "(makeSubscriptionFilter p arn f pat = Inr flt \<longrightarrow>
      (\<exists>d. flt = [(''SubscriptionFilter'' @ getNormalizedFunctionName (naming p) f, d)] \<and>
           DependsOn d = Some [''LogForwardingLambdaPermission'',
                               getLogGroupLogicalId (naming p) f])) \<and>
   (createResourcesObj p = Inr ob \<and> (k, r) \<in> set ob \<and>
    Type r = ''AWS::Logs::SubscriptionFilter'' \<longrightarrow>
      (\<exists>g \<in> set (keys (service_functions (service p))).
          k = ''SubscriptionFilter'' @ getNormalizedFunctionName (naming p) g \<and>
          DependsOn r = Some [''LogForwardingLambdaPermission'',
                              getLogGroupLogicalId (naming p) g]))"
proof (intro conjI impI)
  assume "makeSubscriptionFilter p arn f pat = Inr flt"
  from makeSubscriptionFilter_Inr [OF this]
  show "\<exists>d. flt = [(''SubscriptionFilter'' @ getNormalizedFunctionName (naming p) f, d)] \<and>
           DependsOn d = Some [''LogForwardingLambdaPermission'',
                               getLogGroupLogicalId (naming p) f]"
    by (auto simp add: filterKey_def)
next
  assume a: "createResourcesObj p = Inr ob \<and> (k, r) \<in> set ob \<and>
    Type r = ''AWS::Logs::SubscriptionFilter''"
  then obtain c where c: "conf p = Inr (Some c)"
    by (auto elim: createResourcesObj_InrD)
  from a createResourcesObj_entries [OF c, of ob "(k, r)"]
  obtain g where g: "g \<in> set (targets p c)"
    and flt: "makeSubscriptionFilter p (destinationARN c) g (js_or (filterPattern c) (Str ''''))
               = Inr [(k, r)]"
    by (auto simp add: permission_def)
  from g targets_subset [of p c] have "g \<in> set (keys (service_functions (service p)))"
    by (auto simp add: keys_def)
  moreover from makeSubscriptionFilter_Inr [OF flt]
  have "k = ''SubscriptionFilter'' @ getNormalizedFunctionName (naming p) g \<and>
        DependsOn r = Some [''LogForwardingLambdaPermission'', getLogGroupLogicalId (naming p) g]"
    by (auto simp add: filterKey_def)
  ultimately show "\<exists>g \<in> set (keys (service_functions (service p))).
          k = ''SubscriptionFilter'' @ getNormalizedFunctionName (naming p) g \<and>
          DependsOn r = Some [''LogForwardingLambdaPermission'',
                              getLogGroupLogicalId (naming p) g]"
    by blast
qed

theorem filter_depends_on_witness:
  "(\<exists>d. makeSubscriptionFilter (host conf_arn catalog None) Null ''fnA'' (Str '''') =
          Inr [(''SubscriptionFilterfnA'', d)] \<and>
        DependsOn d = Some [''LogForwardingLambdaPermission'', ''fnALogGroup'']) \<and>
   (\<exists>ob r. createResourcesObj (host conf_arn catalog None) = Inr ob \<and>
        (''SubscriptionFilterfnDest'', r) \<in> set ob \<and>
        DependsOn r = Some [''LogForwardingLambdaPermission'', ''fnDestLogGroup''])"
proof -
  let ?H = "host conf_arn catalog None"
  let ?r = "\<lparr> Type = ''AWS::Logs::SubscriptionFilter'',
           Properties =
             [(''DestinationArn'', Str ''arn:aws:lambda:us-east-1:123:function:dest''),
              (''FilterPattern'', Str ''''),
              (''LogGroupName'', Str ''/aws/lambda/svc-dev-fnDest'')],
           DependsOn = Some [''LogForwardingLambdaPermission'', ''fnDestLogGroup''] \<rparr>"
  obtain flt where flt: "makeSubscriptionFilter ?H Null ''fnA'' (Str '''') = Inr flt"
    by (simp add: plugin_defs)
  obtain ob where ob: "createResourcesObj ?H = Inr ob"
    and r: "(''SubscriptionFilterfnDest'', ?r) \<in> set ob"
    using scenario_A by simp
  note T = filter_depends_on [of ?H Null "''fnA''" "Str ''''" flt ob "''SubscriptionFilterfnDest''" ?r]
  from T flt have "\<exists>d. makeSubscriptionFilter ?H Null ''fnA'' (Str '''') =
          Inr [(''SubscriptionFilterfnA'', d)] \<and>
        DependsOn d = Some [''LogForwardingLambdaPermission'', ''fnALogGroup'']"
    by (auto simp add: host_naming stub_naming_def)
  moreover from T ob r have "DependsOn ?r = Some [''LogForwardingLambdaPermission'', ''fnDestLogGroup'']"
    by simp
  ultimately show ?thesis using ob r by blast
qed

subsection \<open>C5: what the permission depends on\<close>

text \<open>
  C5, as the code has it. The permission depends on the lambda logical id of the
  destination function if and only if \<open>destinationFn\<close> is a non-empty string; when it
  is absent, null or the empty string (so also when only an external
  \<open>destinationARN\<close> is configured) the permission has no \<open>DependsOn\<close>.
\<close>

theorem permission_depends_on:
  assumes "conf p = Inr (Some c)"
    and "\<not> (eq_null (destinationARN c) \<and> eq_null (destinationFn c))"
  shows "\<exists>ob r. createResourcesObj p = Inr ob \<and>
     [e \<leftarrow> ob. fst e = ''LogForwardingLambdaPermission''] =
       [(''LogForwardingLambdaPermission'', r)] \<and>
     (\<forall>d. destinationFn c = Str d \<and> d \<noteq> [] \<longrightarrow>
        DependsOn r = Some [getLambdaLogicalId (naming p) d]) \<and>
     (\<not> truthy (destinationFn c) \<longrightarrow> DependsOn r = None)"
proof -
  from createResourcesObj_total [OF assms] obtain ob where ob: "createResourcesObj p = Inr ob"
    by blast
  have "\<forall>d. destinationFn c = Str d \<and> d \<noteq> [] \<longrightarrow>
        DependsOn (permission p c) = Some [getLambdaLogicalId (naming p) d]"
    by (simp add: permission_def)
  moreover have "\<not> truthy (destinationFn c) \<longrightarrow> DependsOn (permission p c) = None"
    by (simp add: permission_def)
  ultimately show ?thesis
    using ob createResourcesObj_permission [OF assms(1) ob] by blast
qed

theorem permission_depends_on_witness:
  "(\<exists>ob r. createResourcesObj (host conf_fn catalog None) = Inr ob \<and>
     [e \<leftarrow> ob. fst e = ''LogForwardingLambdaPermission''] =
       [(''LogForwardingLambdaPermission'', r)] \<and>
     DependsOn r = Some [''fnDestLambdaFunction'']) \<and>
   (\<exists>ob r. createResourcesObj (host conf_arn catalog None) = Inr ob \<and>
     [e \<leftarrow> ob. fst e = ''LogForwardingLambdaPermission''] =
       [(''LogForwardingLambdaPermission'', r)] \<and>
     DependsOn r = None)"
proof -
  let ?H = "host conf_fn catalog None"
  have valid: "\<not> (eq_null (destinationARN conf_fn) \<and> eq_null (destinationFn conf_fn))"
    by (simp add: conf_fn_def)
  have d: "destinationFn conf_fn = Str ''fnDest''" "''fnDest'' \<noteq> []"
    by (simp_all add: conf_fn_def)
  from permission_depends_on [OF host_conf valid, of catalog None]
  obtain ob r where ob: "createResourcesObj ?H = Inr ob"
    and r: "[e \<leftarrow> ob. fst e = ''LogForwardingLambdaPermission''] =
       [(''LogForwardingLambdaPermission'', r)]"
    and dep: "\<forall>d. destinationFn conf_fn = Str d \<and> d \<noteq> [] \<longrightarrow>
        DependsOn r = Some [getLambdaLogicalId (naming ?H) d]"
    by blast
  from dep d have "DependsOn r = Some [''fnDestLambdaFunction'']"
    by (simp add: host_naming stub_naming_def)
  with ob r have internal_case:
    "\<exists>ob r. createResourcesObj ?H = Inr ob \<and>
     [e \<leftarrow> ob. fst e = ''LogForwardingLambdaPermission''] =
       [(''LogForwardingLambdaPermission'', r)] \<and>
     DependsOn r = Some [''fnDestLambdaFunction'']"
    by blast
  let ?E = "host conf_arn catalog None"
  have valid': "\<not> (eq_null (destinationARN conf_arn) \<and> eq_null (destinationFn conf_arn))"
    by (simp add: conf_arn_def)
  have n: "\<not> truthy (destinationFn conf_arn)"
    by (simp add: conf_arn_def)
  from permission_depends_on [OF host_conf valid', of catalog None]
  obtain ob' r' where ob': "createResourcesObj ?E = Inr ob'"
    and r': "[e \<leftarrow> ob'. fst e = ''LogForwardingLambdaPermission''] =
       [(''LogForwardingLambdaPermission'', r')]"
    and nodep: "\<not> truthy (destinationFn conf_arn) \<longrightarrow> DependsOn r' = None"
    by blast
  from nodep n have "DependsOn r' = None" by simp
  with ob' r' internal_case show ?thesis by blast
qed

text \<open>
  C5 as it is written fails where \<open>destinationFn\<close> is configured as the empty string:
  the validation accepts it as the destination, and the permission gets no
  \<open>DependsOn\<close>.
\<close>

theorem permission_depends_on_counterexample:
  "destinationFn conf_empty_fn = Str [] \<and>
   destinationARN conf_empty_fn = Undefined \<and>
   createResourcesObj (host conf_empty_fn catalog None) =
   Inr [(''LogForwardingLambdaPermission'',
         \<lparr> Type = ''AWS::Lambda::Permission'',
           Properties =
             [(''FunctionName'', Str []),
              (''Action'', Str ''lambda:InvokeFunction''),
              (''Principal'', Str ''logs.us-east-1.amazonaws.com'')],
           DependsOn = None \<rparr>),
        (''SubscriptionFilterfnA'',
         \<lparr> Type = ''AWS::Logs::SubscriptionFilter'',
           Properties =
             [(''DestinationArn'', Undefined),
              (''FilterPattern'', Str []),
              (''LogGroupName'', Str ''/aws/lambda/svc-dev-fnA'')],
           DependsOn = Some [''LogForwardingLambdaPermission'', ''fnALogGroup''] \<rparr>),
        (''SubscriptionFilterfnDest'',
         \<lparr> Type = ''AWS::Logs::SubscriptionFilter'',
           Properties =
             [(''DestinationArn'', Undefined),
              (''FilterPattern'', Str []),
              (''LogGroupName'', Str ''/aws/lambda/svc-dev-fnDest'')],
           DependsOn = Some [''LogForwardingLambdaPermission'', ''fnDestLogGroup''] \<rparr>)]"
  by (simp add: plugin_defs conf_empty_fn_def)

subsection \<open>C6: the properties of the permission\<close>

text \<open>
  C6, as the code has it. The permission has exactly three properties:
  \<open>FunctionName\<close> is \<open>destinationARN\<close> when that is a non-empty string and the
  configured \<open>destinationFn\<close> otherwise; \<open>Action\<close> is \<open>lambda:InvokeFunction\<close>;
  \<open>Principal\<close> is \<open>logs.\<close>, the provider's region and \<open>.amazonaws.com\<close>.
\<close>

theorem permission_properties:
  assumes "conf p = Inr (Some c)"
    and "\<not> (eq_null (destinationARN c) \<and> eq_null (destinationFn c))"
  shows "\<exists>ob r. createResourcesObj p = Inr ob \<and>
     [e \<leftarrow> ob. fst e = ''LogForwardingLambdaPermission''] =
       [(''LogForwardingLambdaPermission'', r)] \<and>
     Properties r =
       [(''FunctionName'',
         if truthy (destinationARN c) then destinationARN c else destinationFn c),
        (''Action'', Str ''lambda:InvokeFunction''),
        (''Principal'', Str (''logs.'' @ region (provider (service p)) @ ''.amazonaws.com''))]"
proof -
  from createResourcesObj_total [OF assms] obtain ob where ob: "createResourcesObj p = Inr ob"
    by blast
  have "Properties (permission p c) =
       [(''FunctionName'',
         if truthy (destinationARN c) then destinationARN c else destinationFn c),
        (''Action'', Str ''lambda:InvokeFunction''),
        (''Principal'', Str (''logs.'' @ region (provider (service p)) @ ''.amazonaws.com''))]"
    by (simp add: permission_def js_or_def)
  then show ?thesis
    using ob createResourcesObj_permission [OF assms(1) ob] by blast
qed

theorem permission_properties_witness:
  "\<exists>ob r. createResourcesObj (host conf_arn catalog None) = Inr ob \<and>
     [e \<leftarrow> ob. fst e = ''LogForwardingLambdaPermission''] =
       [(''LogForwardingLambdaPermission'', r)] \<and>
     Properties r =
       [(''FunctionName'', Str ''arn:aws:lambda:us-east-1:123:function:dest''),
        (''Action'', Str ''lambda:InvokeFunction''),
        (''Principal'', Str ''logs.us-east-1.amazonaws.com'')]"
proof -
  have valid: "\<not> (eq_null (destinationARN conf_arn) \<and> eq_null (destinationFn conf_arn))"
    by (simp add: conf_arn_def)
  from permission_properties [OF host_conf valid, of catalog None] show ?thesis
    by (simp add: conf_arn_def host_def)
qed

text \<open>
  C6 as it is written fails where \<open>destinationARN\<close> is configured as the empty string
  beside a destination function: both are set, and \<open>FunctionName\<close> is the function's
  name, not the ARN.
\<close>

theorem permission_properties_counterexample:
  "destinationARN conf_empty_arn = Str [] \<and>
   destinationFn conf_empty_arn = Str ''fnDest'' \<and>
   createResourcesObj (host conf_empty_arn catalog None) =
   Inr [(''LogForwardingLambdaPermission'',
         \<lparr> Type = ''AWS::Lambda::Permission'',
           Properties =
             [(''FunctionName'', Str ''fnDest''),
              (''Action'', Str ''lambda:InvokeFunction''),
              (''Principal'', Str ''logs.us-east-1.amazonaws.com'')],
           DependsOn = Some [''fnDestLambdaFunction''] \<rparr>),
        (''SubscriptionFilterfnA'',
         \<lparr> Type = ''AWS::Logs::SubscriptionFilter'',
           Properties =
             [(''DestinationArn'', Str []),
              (''FilterPattern'', Str []),
              (''LogGroupName'', Str ''/aws/lambda/svc-dev-fnA'')],
           DependsOn = Some [''LogForwardingLambdaPermission'', ''fnALogGroup''] \<rparr>)]"
  by (simp add: plugin_defs conf_empty_arn_def)

subsection \<open>C7: the properties of a subscription filter\<close>

text \<open>
  C7. Every subscription filter in the object \<open>createResourcesObj\<close> returns has
  exactly three properties: \<open>DestinationArn\<close> is the configured \<open>destinationARN\<close>
  as it stands, the same for all filters (so it is \<open>undefined\<close> when only
  \<open>destinationFn\<close> is configured); \<open>FilterPattern\<close> is the configured pattern, or
  the empty string when none is configured; \<open>LogGroupName\<close> is the log group name the
  naming collaborator gives for the \<open>name\<close> of the function's catalog entry.
\<close>

theorem filter_properties:
  assumes "conf p = Inr (Some c)"
    and "createResourcesObj p = Inr ob"
    and "(k, r) \<in> set ob"
    and "Type r = ''AWS::Logs::SubscriptionFilter''"
  shows "\<exists>f fo. map_of (service_functions (service p)) f = Some fo \<and>
           k = ''SubscriptionFilter'' @ getNormalizedFunctionName (naming p) f \<and>
           Properties r =
             [(''DestinationArn'', destinationARN c),
              (''FilterPattern'', if truthy (filterPattern c) then filterPattern c else Str ''''),
              (''LogGroupName'', Str (getLogGroupName (naming p) (name fo)))]"
proof -
  from assms(3,4) createResourcesObj_entries [OF assms(1,2), of "(k, r)"]
  obtain f where
    flt: "makeSubscriptionFilter p (destinationARN c) f (js_or (filterPattern c) (Str ''''))
               = Inr [(k, r)]"
    by (auto simp add: permission_def)
  from makeSubscriptionFilter_Inr [OF flt] obtain fo where
    fo: "map_of (service_functions (service p)) f = Some fo"
    and k: "k = filterKey p f"
    and r: "Properties r =
             [(''DestinationArn'', destinationARN c),
              (''FilterPattern'', js_or (filterPattern c) (Str [])),
              (''LogGroupName'', Str (getLogGroupName (naming p) (name fo)))]"
    by auto
  from k have "k = ''SubscriptionFilter'' @ getNormalizedFunctionName (naming p) f"
    by (simp add: filterKey_def)
  moreover from r have "Properties r =
             [(''DestinationArn'', destinationARN c),
              (''FilterPattern'', if truthy (filterPattern c) then filterPattern c else Str []),
              (''LogGroupName'', Str (getLogGroupName (naming p) (name fo)))]"
    by (simp add: js_or_def)
  ultimately show ?thesis using fo by blast
qed

theorem filter_properties_witness:
  "\<exists>ob r. createResourcesObj (host conf_fn catalog None) = Inr ob \<and>
     (''SubscriptionFilterfnA'', r) \<in> set ob \<and>
     Properties r =
       [(''DestinationArn'', Undefined),
        (''FilterPattern'', Str ''ERROR''),
        (''LogGroupName'', Str ''/aws/lambda/svc-dev-fnA'')]"
proof -
  let ?H = "host conf_fn catalog None"
  let ?r = "\<lparr> Type = ''AWS::Logs::SubscriptionFilter'',
           Properties =
             [(''DestinationArn'', Undefined),
              (''FilterPattern'', Str ''ERROR''),
              (''LogGroupName'', Str ''/aws/lambda/svc-dev-fnA'')],
           DependsOn = Some [''LogForwardingLambdaPermission'', ''fnALogGroup''] \<rparr>"
  obtain ob where ob: "createResourcesObj ?H = Inr ob"
    and r: "(''SubscriptionFilterfnA'', ?r) \<in> set ob"
    using scenario_B by simp
  have t: "Type ?r = ''AWS::Logs::SubscriptionFilter''" by simp
  from filter_properties [OF host_conf ob r t] obtain f fo where
    "map_of (service_functions (service ?H)) f = Some fo"
    and "''SubscriptionFilterfnA'' = ''SubscriptionFilter'' @ getNormalizedFunctionName (naming ?H) f"
    and "Properties ?r =
             [(''DestinationArn'', destinationARN conf_fn),
              (''FilterPattern'',
               if truthy (filterPattern conf_fn) then filterPattern conf_fn else Str ''''),
              (''LogGroupName'', Str (getLogGroupName (naming ?H) (name fo)))]"
    by blast
  then have "f = ''fnA''" and "Properties ?r =
       [(''DestinationArn'', Undefined),
        (''FilterPattern'', Str ''ERROR''),
        (''LogGroupName'', Str ''/aws/lambda/svc-dev-fnA'')]"
    by (simp_all add: host_naming stub_naming_def)
  with ob r show ?thesis by blast
qed

subsection \<open>C8: the stage gate\<close>

text \<open>
  C8. When a stages list is configured and does not hold the current stage,
  \<open>updateResources\<close> returns normally with the plugin unchanged but for one message,
  \<open>Log Forwarding is ignored for <stage> stage\<close>. The destination is not looked at:
  this holds also of a configuration without one.
\<close>

theorem stage_gate:
  assumes "conf p = Inr (Some c)"
    and "stages c = Some l"
    and "currentStage p \<notin> set l"
  shows "updateResources p =
         (Inr (),
          p\<lparr>cli_log := cli_log p @
               [''Log Forwarding is ignored for '' @ currentStage p @ '' stage'']\<rparr>)"
  using assms by (simp add: updateResources_def stageExcluded_def log_def Let_def)

theorem stage_gate_witness:
  "updateResources (host conf_prod catalog (Some own_resources)) =
     (Inr (),
      (host conf_prod catalog (Some own_resources))
        \<lparr>cli_log := [''Log Forwarding is ignored for dev stage'']\<rparr>)"
proof -
  let ?H = "host conf_prod catalog (Some own_resources)"
  have s: "stages conf_prod = Some [''prod'']" by (simp add: conf_prod_def)
  have st: "currentStage ?H = ''dev''" by (simp add: currentStage_def host_def)
  then have g: "currentStage ?H \<notin> set [''prod'']" by simp
  have "cli_log ?H = []" by (simp add: host_def)
  with stage_gate [OF host_conf s g] st show ?thesis by simp
qed

subsection \<open>C9: merging into the host's resources\<close>

text \<open>
  C9. When \<open>updateResources\<close> runs and \<open>createResourcesObj\<close> returns an object, the
  host has afterwards a \<open>resources\<close> object with a \<open>Resources\<close> mapping. Under every
  key of the produced object it holds the produced declaration, and under every other key
  what the host had before; when \<open>resources\<close> or its \<open>Resources\<close> was
  \<open>undefined\<close> it started empty, so the mapping is the produced object.
\<close>

theorem merge_into_host:
  assumes "conf p = Inr (Some c)"
    and "\<not> stageExcluded c (currentStage p)"
    and "createResourcesObj p = Inr ob"
  shows "\<exists>p' rs rm. updateResources p = (Inr (), p') \<and>
           resources (service p') = Some rs \<and> Resources rs = Some rm \<and>
           (\<forall>k. map_of rm k =
                  (case map_of ob k of Some r \<Rightarrow> Some r | None \<Rightarrow> map_of (hostResources p) k)) \<and>
           (resources (service p) = None \<or>
            (\<exists>r. resources (service p) = Some r \<and> Resources r = None) \<longrightarrow> rm = ob)"
proof -
  let ?rs = "mergeResources ob (resources (service p))"
  let ?rm = "extend_obj (hostResources p) ob"
  from createResourcesObj_distinct [OF assms(3)] have dist: "distinct (map fst ob)" .
  have run: "updateResources p =
      (Inr (), log ''Log Forwarding Resources Updated''
            ((log ''Updating Log Forwarding Resources...'' p)
               \<lparr>service := (service p)\<lparr>resources := Some ?rs\<rparr>\<rparr>))"
    using updateResources_run [OF assms(1,2)] assms(3) by simp
  have rm: "Resources ?rs = Some ?rm"
    by (simp add: mergeResources_def hostResources_def split: option.splits)
  have "\<forall>k. map_of ?rm k =
          (case map_of ob k of Some r \<Rightarrow> Some r | None \<Rightarrow> map_of (hostResources p) k)"
    using map_of_extend_obj [OF dist] by blast
  moreover have "resources (service p) = None \<or>
            (\<exists>r. resources (service p) = Some r \<and> Resources r = None) \<longrightarrow> ?rm = ob"
    using extend_obj_fresh [of "[]" ob] dist by (auto simp add: hostResources_def)
  ultimately show ?thesis using run rm by (simp add: log_def)
qed

text \<open>
  The host declares a bucket and, under the permission's key, a topic: the bucket stays,
  the topic is replaced by the permission, and the filters are added.
\<close>

theorem merge_into_host_witness:
  "(\<exists>p' rs rm ob. updateResources (host conf_fn catalog None) = (Inr (), p') \<and>
     resources (service p') = Some rs \<and> Resources rs = Some rm \<and>
     createResourcesObj (host conf_fn catalog None) = Inr ob \<and> rm = ob) \<and>
   (\<exists>p' rs rm. updateResources (host conf_fn catalog (Some own_resources)) = (Inr (), p') \<and>
     resources (service p') = Some rs \<and> Resources rs = Some rm \<and>
     map_of rm ''Bucket'' =
       Some \<lparr> Type = ''AWS::S3::Bucket'', Properties = [], DependsOn = None \<rparr> \<and>
     map_of rm ''LogForwardingLambdaPermission'' =
       Some \<lparr> Type = ''AWS::Lambda::Permission'',
           Properties =
             [(''FunctionName'', Str ''fnDest''),
              (''Action'', Str ''lambda:InvokeFunction''),
              (''Principal'', Str ''logs.us-east-1.amazonaws.com'')],
           DependsOn = Some [''fnDestLambdaFunction''] \<rparr> \<and>
     map_of rm ''SubscriptionFilterfnA'' =
       Some \<lparr> Type = ''AWS::Logs::SubscriptionFilter'',
           Properties =
             [(''DestinationArn'', Undefined),
              (''FilterPattern'', Str ''ERROR''),
              (''LogGroupName'', Str ''/aws/lambda/svc-dev-fnA'')],
           DependsOn = Some [''LogForwardingLambdaPermission'', ''fnALogGroup''] \<rparr>)"
proof -
  let ?N = "host conf_fn catalog None"
  have gate': "\<not> stageExcluded conf_fn (currentStage ?N)"
    by (simp add: stageExcluded_def conf_fn_def)
  obtain ob' where ob': "createResourcesObj ?N = Inr ob'"
    using scenario_B by simp
  have absent: "resources (service ?N) = None" by (simp add: host_def)
  from merge_into_host [OF host_conf gate' ob'] obtain q qs qm where
    "updateResources ?N = (Inr (), q)"
    and "resources (service q) = Some qs" "Resources qs = Some qm"
    and "resources (service ?N) = None \<or>
            (\<exists>r. resources (service ?N) = Some r \<and> Resources r = None) \<longrightarrow> qm = ob'"
    by blast
  with absent ob' have absent_case:
    "\<exists>p' rs rm ob. updateResources ?N = (Inr (), p') \<and>
     resources (service p') = Some rs \<and> Resources rs = Some rm \<and>
     createResourcesObj ?N = Inr ob \<and> rm = ob"
    by blast
  let ?H = "host conf_fn catalog (Some own_resources)"
  have gate: "\<not> stageExcluded conf_fn (currentStage ?H)"
    by (simp add: stageExcluded_def conf_fn_def)
  have "createResourcesObj ?H = createResourcesObj (host conf_fn catalog None)"
    by (simp add: plugin_defs)
  with scenario_B obtain ob where ob: "createResourcesObj ?H = Inr ob"
    and ob_def: "ob = [(''LogForwardingLambdaPermission'',
         \<lparr> Type = ''AWS::Lambda::Permission'',
           Properties =
             [(''FunctionName'', Str ''fnDest''),
              (''Action'', Str ''lambda:InvokeFunction''),
              (''Principal'', Str ''logs.us-east-1.amazonaws.com'')],
           DependsOn = Some [''fnDestLambdaFunction''] \<rparr>),
        (''SubscriptionFilterfnA'',
         \<lparr> Type = ''AWS::Logs::SubscriptionFilter'',
           Properties =
             [(''DestinationArn'', Undefined),
              (''FilterPattern'', Str ''ERROR''),
              (''LogGroupName'', Str ''/aws/lambda/svc-dev-fnA'')],
           DependsOn = Some [''LogForwardingLambdaPermission'', ''fnALogGroup''] \<rparr>)]"
    by simp
  have hr: "hostResources ?H =
         [(''Bucket'', \<lparr> Type = ''AWS::S3::Bucket'', Properties = [], DependsOn = None \<rparr>),
          (''LogForwardingLambdaPermission'',
           \<lparr> Type = ''AWS::SNS::Topic'', Properties = [], DependsOn = None \<rparr>)]"
    by (simp add: hostResources_def host_def own_resources_def)
  from merge_into_host [OF host_conf gate ob] obtain p' rs rm where
    run: "updateResources ?H = (Inr (), p')"
    and rs: "resources (service p') = Some rs" "Resources rs = Some rm"
    and m: "\<forall>k. map_of rm k =
         (case map_of ob k of Some r \<Rightarrow> Some r | None \<Rightarrow> map_of (hostResources ?H) k)"
    by blast
  from m have "map_of rm ''Bucket'' =
       Some \<lparr> Type = ''AWS::S3::Bucket'', Properties = [], DependsOn = None \<rparr>"
    by (simp add: ob_def hr)
  moreover from m have "map_of rm ''LogForwardingLambdaPermission'' =
       Some \<lparr> Type = ''AWS::Lambda::Permission'',
           Properties =
             [(''FunctionName'', Str ''fnDest''),
              (''Action'', Str ''lambda:InvokeFunction''),
              (''Principal'', Str ''logs.us-east-1.amazonaws.com'')],
           DependsOn = Some [''fnDestLambdaFunction''] \<rparr>"
    by (simp add: ob_def hr)
  moreover from m have "map_of rm ''SubscriptionFilterfnA'' =
       Some \<lparr> Type = ''AWS::Logs::SubscriptionFilter'',
           Properties =
             [(''DestinationArn'', Undefined),
              (''FilterPattern'', Str ''ERROR''),
              (''LogGroupName'', Str ''/aws/lambda/svc-dev-fnA'')],
           DependsOn = Some [''LogForwardingLambdaPermission'', ''fnALogGroup''] \<rparr>"
    by (simp add: ob_def hr)
  ultimately show ?thesis using run rs absent_case by blast
qed

subsection \<open>C10: no configuration block\<close>

text \<open>
  C10. When \<open>custom\<close> is \<open>undefined\<close>, \<open>updateResources\<close> throws a
  \<open>TypeError\<close> for reading \<open>logForwarding\<close>; when \<open>custom.logForwarding\<close> is
  \<open>undefined\<close>, it throws one for reading \<open>stages\<close>. In both cases nothing has
  been logged or changed, and it is not the configuration error.
\<close>

theorem missing_block:
  "(custom (service p) = None \<longrightarrow>
      updateResources p = (Inl (TypeError ''logForwarding''), p)) \<and>
   (custom (service p) = Some cu \<and> logForwarding cu = None \<longrightarrow>
      updateResources p = (Inl (TypeError ''stages''), p))"
  by (simp add: updateResources_def conf_def Let_def)

theorem missing_block_witness:
  "updateResources ((host conf_arn catalog None)
      \<lparr>service := (service (host conf_arn catalog None))\<lparr>custom := None\<rparr>\<rparr>) =
     (Inl (TypeError ''logForwarding''),
      (host conf_arn catalog None)
        \<lparr>service := (service (host conf_arn catalog None))\<lparr>custom := None\<rparr>\<rparr>) \<and>
   updateResources ((host conf_arn catalog None)
      \<lparr>service := (service (host conf_arn catalog None))
         \<lparr>custom := Some \<lparr>logForwarding = None\<rparr>\<rparr>\<rparr>) =
     (Inl (TypeError ''stages''),
      (host conf_arn catalog None)
        \<lparr>service := (service (host conf_arn catalog None))
           \<lparr>custom := Some \<lparr>logForwarding = None\<rparr>\<rparr>\<rparr>)"
  using
    missing_block [of "(host conf_arn catalog None)
      \<lparr>service := (service (host conf_arn catalog None))\<lparr>custom := None\<rparr>\<rparr>"]
    missing_block [of "(host conf_arn catalog None)
      \<lparr>service := (service (host conf_arn catalog None))
         \<lparr>custom := Some \<lparr>logForwarding = None\<rparr>\<rparr>\<rparr>" "\<lparr>logForwarding = None\<rparr>"]
  by simp

end
